theory Spec2Isabelle
  imports Complex_Main "HOL-Library.Multiset"
begin

section \<open>K-nearest-neighbours chapter: the computations of \<open>classification1.py\<close>\<close>

text \<open>
  The source is a literate notebook. Its own code computes straight-line distances with
  column arithmetic, sorts the table by that distance and keeps the first rows, builds an
  imbalanced table and oversamples it. Classification, standardisation and the random
  draw are calls into libraries (\<open>KNeighborsClassifier\<close>, \<open>StandardScaler\<close>,
  \<open>resample\<close>, \<open>sort_values\<close>) whose code is not part of the source file.

  Numbers are real numbers, as in the specification's data model; rounding, overflow and
  underflow of 64-bit floating point are not represented.
\<close>

subsection \<open>Tables\<close>

text \<open>
  A row of \<open>data/wdbc.csv\<close> or \<open>data/unscaled_wdbc.csv\<close> (the two files have the same
  columns), with the columns the computations read.
\<close>

record row =
  ID :: int
  Class :: string
  Perimeter :: real
  Concavity :: real
  Symmetry :: real
  Area :: real
  Smoothness :: real

text \<open>Error kinds named by the specification.\<close>

datatype error =
  InvalidInputError
  | DimensionMismatchError
  | InvalidArgumentError
  | DegenerateColumnError

subsection \<open>Distance (source lines 566-572 and 659-667)\<close>

text \<open>
  \<^verbatim>\<open>cancer_dist["dist_from_new"] = np.sqrt(
      (cancer_dist["Perimeter"] - new_obs_Perimeter) ** 2
      + (cancer_dist["Concavity"] - new_obs_Concavity) ** 2)\<close>
  The column expression, for one row.
\<close>

definition dist_from_new :: "real \<Rightarrow> real \<Rightarrow> row \<Rightarrow> real" where
  "dist_from_new new_obs_Perimeter new_obs_Concavity r =
     sqrt ((Perimeter r - new_obs_Perimeter)\<^sup>2 + (Concavity r - new_obs_Concavity)\<^sup>2)"

text \<open>The same with the third predictor, \<open>Symmetry\<close> (\<open>cancer_dist2\<close>).\<close>

definition dist_from_new3 :: "real \<Rightarrow> real \<Rightarrow> real \<Rightarrow> row \<Rightarrow> real" where
  "dist_from_new3 new_obs_Perimeter new_obs_Concavity new_obs_Symmetry r =
     sqrt ((Perimeter r - new_obs_Perimeter)\<^sup>2
           + (Concavity r - new_obs_Concavity)\<^sup>2
           + (Symmetry r - new_obs_Symmetry)\<^sup>2)"

text \<open>
  The specification's \<open>distance\<close>, written from its words for comparison with the two
  source expressions: the square root of the sum of the squared coordinate differences,
  and \<open>DimensionMismatchError\<close> when the lengths differ.
\<close>

definition distance_spec :: "real list \<Rightarrow> real list \<Rightarrow> error + real" where
  "distance_spec a b =
     (if length a \<noteq> length b then Inl DimensionMismatchError
      else Inr (sqrt (sum_list (map (\<lambda>(x, y). (x - y)\<^sup>2) (zip a b)))))"

subsection \<open>Neighbour selection (source lines 573-575 and 668-669)\<close>

text \<open>
  \<^verbatim>\<open># sort the rows in ascending order and take the first 5 rows
  cancer_dist = cancer_dist.sort_values(by="dist_from_new").head(5)\<close>

  \<open>sort_values\<close> is the data-frame library's sort, called with its default algorithm. Its
  code is not in the source, so it is a parameter \<open>srt\<close>; what is assumed of it is that
  it returns the same rows, ascending by the key column. Nothing is assumed about the
  order it gives to rows with equal keys.
\<close>

type_synonym 'r sorter = "('r \<Rightarrow> real) \<Rightarrow> 'r list \<Rightarrow> 'r list"

definition sort_values_ok :: "'r sorter \<Rightarrow> bool" where
  "sort_values_ok srt \<longleftrightarrow>
     (\<forall>key xs. mset (srt key xs) = mset xs \<and> sorted (map key (srt key xs)))"

text \<open>
  \<open>head(n)\<close>: the first \<open>n\<close> rows; for a negative \<open>n\<close>, all rows but the last \<open>|n|\<close>
  (the slice \<open>[:n]\<close>). It never raises.
\<close>

definition head :: "int \<Rightarrow> 'a list \<Rightarrow> 'a list" where
  "head n xs = (if 0 \<le> n then take (nat n) xs else take (length xs - nat (- n)) xs)"

text \<open>The table with the added column \<open>dist_from_new\<close>: each row paired with its distance.\<close>

definition with_dist :: "('r \<Rightarrow> real) \<Rightarrow> 'r list \<Rightarrow> ('r \<times> real) list" where
  "with_dist d rows = map (\<lambda>r. (r, d r)) rows"

text \<open>Sort by the distance column and keep the first \<open>k\<close> rows (the source writes \<open>5\<close>).\<close>

definition nearest :: "('r \<times> real) sorter \<Rightarrow> int \<Rightarrow> ('r \<Rightarrow> real) \<Rightarrow> 'r list \<Rightarrow> ('r \<times> real) list" where
  "nearest srt k d rows = head k (srt snd (with_dist d rows))"

definition cancer_dist ::
    "(row \<times> real) sorter \<Rightarrow> int \<Rightarrow> real \<Rightarrow> real \<Rightarrow> row list \<Rightarrow> (row \<times> real) list" where
  "cancer_dist srt k new_obs_Perimeter new_obs_Concavity cancer =
     nearest srt k (dist_from_new new_obs_Perimeter new_obs_Concavity) cancer"

definition cancer_dist2 ::
    "(row \<times> real) sorter \<Rightarrow> int \<Rightarrow> real \<Rightarrow> real \<Rightarrow> real \<Rightarrow> row list \<Rightarrow> (row \<times> real) list" where
  "cancer_dist2 srt k new_obs_Perimeter new_obs_Concavity new_obs_Symmetry cancer =
     nearest srt k (dist_from_new3 new_obs_Perimeter new_obs_Concavity new_obs_Symmetry) cancer"

text \<open>A table of ten rows, at perimeters 1 to 10.\<close>

definition ten_rows :: "row list" where
  "ten_rows = map (\<lambda>i. \<lparr>ID = i, Class = ''Benign'', Perimeter = real_of_int i,
                        Concavity = 0, Symmetry = 0, Area = 0, Smoothness = 0\<rparr>) [1..10]"

subsection \<open>The imbalanced table and oversampling (source lines 1237-1244 and 1388-1396)\<close>

text \<open>
  \<^verbatim>\<open>def class_dscp(x):
      if x == "M":
          return "Malignant"
      elif x == "B":
          return "Benign"
      else:
          return x\<close>
\<close>

definition class_dscp :: "string \<Rightarrow> string" where
  "class_dscp x = (if x = ''M'' then ''Malignant'' else if x = ''B'' then ''Benign'' else x)"

text \<open>
  \<^verbatim>\<open>rare_cancer = pd.concat(
      (cancer.query("Class == 'B'"), cancer.query("Class == 'M'").head(3)))
  rare_cancer["Class"] = rare_cancer["Class"].apply(
      lambda x: "Malignant" if (x == "M") else "Benign")
  ...
  rare_cancer["Class"] = rare_cancer["Class"].apply(class_dscp)\<close>
\<close>

definition rare_cancer :: "row list \<Rightarrow> row list" where
  "rare_cancer cancer =
     map (\<lambda>r. r\<lparr>Class := class_dscp (Class r)\<rparr>)
       (map (\<lambda>r. r\<lparr>Class := (if Class r = ''M'' then ''Malignant'' else ''Benign'')\<rparr>)
          (filter (\<lambda>r. Class r = ''B'') cancer @ head 3 (filter (\<lambda>r. Class r = ''M'') cancer)))"

definition malignant_cancer :: "row list \<Rightarrow> row list" where
  "malignant_cancer rare = filter (\<lambda>r. Class r = ''Malignant'') rare"

definition benign_cancer :: "row list \<Rightarrow> row list" where
  "benign_cancer rare = filter (\<lambda>r. Class r = ''Benign'') rare"

text \<open>
  \<open>resample(rows, n_samples=n, random_state=100)\<close> draws \<open>n\<close> rows with replacement.
  The library and its random generator are not in the source: the generator is a parameter
  \<open>randint\<close>, giving for a population size and a number of draws the list of drawn
  positions. Drawing from an empty population has no result.
\<close>

definition randint_ok :: "(nat \<Rightarrow> nat \<Rightarrow> nat list) \<Rightarrow> bool" where
  "randint_ok randint \<longleftrightarrow>
     (\<forall>hi n. 0 < hi \<longrightarrow> length (randint hi n) = n \<and> (\<forall>i \<in> set (randint hi n). i < hi))"

definition resample :: "(nat \<Rightarrow> nat \<Rightarrow> nat list) \<Rightarrow> 'a list \<Rightarrow> nat \<Rightarrow> 'a list option" where
  "resample randint rows n =
     (if rows = [] then None else Some (map (\<lambda>i. rows ! i) (randint (length rows) n)))"

text \<open>
  \<^verbatim>\<open>malignant_cancer_upsample = resample(
      malignant_cancer, n_samples=len(benign_cancer), random_state=100)
  upsampled_cancer = pd.concat((malignant_cancer_upsample, benign_cancer))\<close>
\<close>

definition upsampled_cancer :: "(nat \<Rightarrow> nat \<Rightarrow> nat list) \<Rightarrow> row list \<Rightarrow> row list option" where
  "upsampled_cancer randint rare =
     (case resample randint (malignant_cancer rare) (length (benign_cancer rare)) of
        None \<Rightarrow> None
      | Some malignant_cancer_upsample \<Rightarrow> Some (malignant_cancer_upsample @ benign_cancer rare))"

text \<open>Two generators that always draw the first, respectively the last, position.\<close>

definition draw_first :: "nat \<Rightarrow> nat \<Rightarrow> nat list" where
  "draw_first hi n = replicate n 0"

definition draw_last :: "nat \<Rightarrow> nat \<Rightarrow> nat list" where
  "draw_last hi n = replicate n (hi - 1)"

definition mk_row :: "int \<Rightarrow> string \<Rightarrow> real \<Rightarrow> real \<Rightarrow> row" where
  "mk_row i cl p c =
     \<lparr>ID = i, Class = cl, Perimeter = p, Concavity = c, Symmetry = 0, Area = 0, Smoothness = 0\<rparr>"

text \<open>Two malignant rows and one benign row.\<close>

definition small_table :: "row list" where
  "small_table = [mk_row 1 ''Malignant'' 2 2, mk_row 2 ''Malignant'' 3 3, mk_row 3 ''Benign'' 0 0]"

text \<open>Two malignant rows and two benign rows.\<close>

definition even_table :: "row list" where
  "even_table = [mk_row 1 ''Malignant'' 2 2, mk_row 2 ''Malignant'' 3 3,
                 mk_row 3 ''Benign'' 0 0, mk_row 4 ''Benign'' 0 1]"

subsection \<open>Standardisation (source lines 979-1001)\<close>

text \<open>
  \<^verbatim>\<open>preprocessor = make_column_transformer((StandardScaler(), ["Area", "Smoothness"]),)
  preprocessor.fit(unscaled_cancer)
  scaled_cancer = preprocessor.transform(unscaled_cancer)\<close>
\<close>

text \<open>
  Modelled from the spec: \<open>StandardScaler\<close>, whose \<open>fit\<close> and \<open>transform\<close> are library code
  absent from the source. Following section 4.1 of the specification, \<open>fit\<close> computes the
  mean and the standard deviation of each predictor column and fails on an empty table;
  \<open>transform\<close> replaces a value by \<open>(value - mean) / stddev\<close>. The specification leaves
  two choices open, fixed here as: the population standard deviation (division by the
  number of rows), and the value \<open>0\<close> for a column whose stored deviation is zero.
\<close>

definition mean :: "real list \<Rightarrow> real" where
  "mean xs = sum_list xs / real (length xs)"

definition stddev :: "real list \<Rightarrow> real" where
  "stddev xs = sqrt (sum_list (map (\<lambda>x. (x - mean xs)\<^sup>2) xs) / real (length xs))"

record ScalingParameters =
  Area_mean :: real
  Area_stddev :: real
  Smoothness_mean :: real
  Smoothness_stddev :: real

definition fit :: "row list \<Rightarrow> error + ScalingParameters" where
  "fit referenceTable =
     (if referenceTable = [] then Inl InvalidInputError
      else Inr \<lparr>Area_mean = mean (map Area referenceTable),
                Area_stddev = stddev (map Area referenceTable),
                Smoothness_mean = mean (map Smoothness referenceTable),
                Smoothness_stddev = stddev (map Smoothness referenceTable)\<rparr>)"

definition scale_value :: "real \<Rightarrow> real \<Rightarrow> real \<Rightarrow> real" where
  "scale_value m s v = (if s = 0 then 0 else (v - m) / s)"

definition transform :: "row list \<Rightarrow> ScalingParameters \<Rightarrow> row list" where
  "transform table params =
     map (\<lambda>r. r\<lparr>Area := scale_value (Area_mean params) (Area_stddev params) (Area r),
                 Smoothness :=
                   scale_value (Smoothness_mean params) (Smoothness_stddev params) (Smoothness r)\<rparr>)
       table"

text \<open>\<open>fit\<close> followed by \<open>transform\<close> on the same table, as the source cell does.\<close>

definition scaled_cancer :: "row list \<Rightarrow> error + row list" where
  "scaled_cancer unscaled_cancer =
     (case fit unscaled_cancer of
        Inl e \<Rightarrow> Inl e
      | Inr params \<Rightarrow> Inr (transform unscaled_cancer params))"

definition mk_unscaled :: "string \<Rightarrow> real \<Rightarrow> real \<Rightarrow> row" where
  "mk_unscaled cl a s =
     \<lparr>ID = 0, Class = cl, Perimeter = 0, Concavity = 0, Symmetry = 0, Area = a, Smoothness = s\<rparr>"

text \<open>A table whose \<open>Area\<close> column is constant, and one whose columns both vary.\<close>

definition flat_area_table :: "row list" where
  "flat_area_table = [mk_unscaled ''B'' 5 1, mk_unscaled ''M'' 5 3]"

definition varied_table :: "row list" where
  "varied_table = [mk_unscaled ''B'' 1 2, mk_unscaled ''M'' 3 4]"

subsection \<open>Classification (source lines 879-908 and 1333-1341)\<close>

text \<open>
  \<^verbatim>\<open>knn_spec = KNeighborsClassifier(n_neighbors=5)
  knn_spec.fit(X=cancer_train.loc[:, ["Perimeter", "Concavity"]], y=cancer_train["Class"])
  knn_spec.predict(new_obs)\<close>
\<close>

text \<open>
  Modelled from the spec: the classifier \<open>KNeighborsClassifier\<close>, library code absent from
  the source. Following section 4.4 of the specification, \<open>build\<close> holds the training set
  and \<open>k\<close> and rejects a \<open>k\<close> that is not positive or exceeds the training set;
  \<open>predictOne\<close> takes the \<open>k\<close> nearest rows (the source's own sort-and-head step, on
  the predictors \<open>Perimeter\<close> and \<open>Concavity\<close>) and returns the label with the highest
  count among them. The vote itself is a parameter \<open>vote\<close>: what is assumed of it is
  that it returns one of the given labels, of maximal count. The source gives no rule for
  equal counts (it advises an odd \<open>K\<close>), and none is assumed.
\<close>

record classifier =
  training_set :: "row list"
  n_neighbors :: int

definition build :: "row list \<Rightarrow> int \<Rightarrow> error + classifier" where
  "build trainingSet k =
     (if k \<le> 0 \<or> int (length trainingSet) < k then Inl InvalidArgumentError
      else Inr \<lparr>training_set = trainingSet, n_neighbors = k\<rparr>)"

definition majority_vote_ok :: "(string list \<Rightarrow> string) \<Rightarrow> bool" where
  "majority_vote_ok vote \<longleftrightarrow>
     (\<forall>ls. ls \<noteq> [] \<longrightarrow>
        vote ls \<in> set ls \<and> (\<forall>l. count_list ls l \<le> count_list ls (vote ls)))"

definition neighbor_labels :: "(row \<times> real) sorter \<Rightarrow> classifier \<Rightarrow> real \<Rightarrow> real \<Rightarrow> string list" where
  "neighbor_labels srt clf p c =
     map (\<lambda>n. Class (fst n)) (cancer_dist srt (n_neighbors clf) p c (training_set clf))"

definition predictOne ::
    "(row \<times> real) sorter \<Rightarrow> (string list \<Rightarrow> string) \<Rightarrow> classifier \<Rightarrow> real \<Rightarrow> real \<Rightarrow> string" where
  "predictOne srt vote clf p c = vote (neighbor_labels srt clf p c)"

text \<open>
  Modelled from the spec: the tally inside \<open>predictOne\<close> (section 4.4), library code
  absent from the source. It counts the occurrences of each label among the neighbours
  and keeps the labels whose count is the highest. Which of several labels with the same
  count is returned is the parameter \<open>pick\<close>, assumed only to return one of the labels
  it is given.
\<close>

definition tally :: "string list \<Rightarrow> (string \<times> nat) list" where
  "tally ls = map (\<lambda>l. (l, count_list ls l)) (remdups ls)"

definition top_labels :: "string list \<Rightarrow> string list" where
  "top_labels ls =
     map fst (filter (\<lambda>e. list_all (\<lambda>e'. snd e' \<le> snd e) (tally ls)) (tally ls))"

definition pick_ok :: "(string list \<Rightarrow> string) \<Rightarrow> bool" where
  "pick_ok pick \<longleftrightarrow> (\<forall>xs. xs \<noteq> [] \<longrightarrow> pick xs \<in> set xs)"

definition majority_vote :: "(string list \<Rightarrow> string) \<Rightarrow> string list \<Rightarrow> string" where
  "majority_vote pick ls = pick (top_labels ls)"

text \<open>One vote function that meets the assumption: a scan for a label of maximal count.\<close>

definition vote_scan :: "string list \<Rightarrow> string" where
  "vote_scan ls = arg_min_list (\<lambda>l. - int (count_list ls l)) ls"

text \<open>
  A second sort and a second vote that meet the same assumptions: the sort puts the later
  of two rows with equal keys first, the vote scans the labels from the end. And a table
  of two rows at the same distance from \<open>(0, 3.5)\<close>.
\<close>

definition sort_values_last_first :: "'r sorter" where
  "sort_values_last_first key xs = rev (sort_key (\<lambda>x. - key x) xs)"

definition vote_scan_last :: "string list \<Rightarrow> string" where
  "vote_scan_last ls = vote_scan (rev ls)"

definition tied_rows :: "row list" where
  "tied_rows = [mk_row 1 ''Malignant'' 1 3.5, mk_row 2 ''Benign'' (- 1) 3.5]"

text \<open>
  The five nearest rows of the worked example (source lines 590-599), and a table with
  three malignant rows near \<open>(2, 2)\<close> and four benign rows further away.
\<close>

definition five_rows :: "row list" where
  "five_rows =
     [mk_row 1 ''Benign'' 0.24 2.65, mk_row 2 ''Malignant'' 0.75 2.87,
      mk_row 3 ''Malignant'' 0.62 2.54, mk_row 4 ''Malignant'' 0.42 2.31,
      mk_row 5 ''Benign'' (- 1.16) 4.04]"

text \<open>
  The five rows of the worked example after three benign rows that lie further from
  \<open>(0, 3.5)\<close>: in table order the first five rows are four benign and one malignant.
\<close>

definition eight_rows :: "row list" where
  "eight_rows =
     [mk_row 6 ''Benign'' (- 0.5) (- 0.8), mk_row 7 ''Benign'' (- 1) (- 0.5),
      mk_row 8 ''Benign'' (- 0.3) (- 1)] @ five_rows"

definition seven_rows :: "row list" where
  "seven_rows =
     [mk_row 1 ''Malignant'' 2 2, mk_row 2 ''Malignant'' 2 2.1, mk_row 3 ''Malignant'' 2.1 2,
      mk_row 4 ''Benign'' 0 0, mk_row 5 ''Benign'' 0 1, mk_row 6 ''Benign'' 1 0,
      mk_row 7 ''Benign'' (- 1) 0]"

section \<open>Properties\<close>

subsection \<open>Distance\<close>

lemma sq_diffs_commute:
  "length a = length b \<Longrightarrow>
   map (\<lambda>(x, y). (x - y)\<^sup>2) (zip a b) = map (\<lambda>(x, y). (x - y)\<^sup>2) (zip b (a::real list))"
  by (induction a b rule: list_induct2) (simp_all add: power2_commute)

lemma sq_diffs_nonneg: "0 \<le> sum_list (map (\<lambda>(x, y). (x - y)\<^sup>2) (zip a (b::real list)))"
  by (rule sum_list_nonneg) auto

lemma sq_diffs_zero_iff:
  "length a = length b \<Longrightarrow>
   sum_list (map (\<lambda>(x, y). (x - y)\<^sup>2) (zip a b)) = 0 \<longleftrightarrow> a = (b::real list)"
proof (induction a b rule: list_induct2)
  case Nil
  show ?case by simp
next
  case (Cons x xs y ys)
  have "0 \<le> (x - y)\<^sup>2" by simp
  moreover have "0 \<le> sum_list (map (\<lambda>(x, y). (x - y)\<^sup>2) (zip xs ys))"
    by (rule sq_diffs_nonneg)
  ultimately have "(x - y)\<^sup>2 + sum_list (map (\<lambda>(x, y). (x - y)\<^sup>2) (zip xs ys)) = 0
      \<longleftrightarrow> (x - y)\<^sup>2 = 0 \<and> sum_list (map (\<lambda>(x, y). (x - y)\<^sup>2) (zip xs ys)) = 0"
    by (rule add_nonneg_eq_0_iff)
  with Cons.IH show ?case by simp
qed

lemma sqrt_between: "0 \<le> lo \<Longrightarrow> 0 \<le> hi \<Longrightarrow> lo\<^sup>2 \<le> x \<Longrightarrow> x \<le> hi\<^sup>2 \<Longrightarrow> lo \<le> sqrt x \<and> sqrt x \<le> hi"
  by (simp add: real_le_rsqrt real_le_lsqrt)

text \<open>
  C1. The distance computed by the source is the square root of the sum of the squared
  coordinate differences: the two-predictor expression and the three-predictor expression
  are the general formula at \<open>m = 2\<close> and \<open>m = 3\<close>. For the new observation \<open>(0, 3.5)\<close>
  and a row at \<open>(0.24, 2.65)\<close> the distance is \<open>sqrt (0.24\<^sup>2 + 0.85\<^sup>2)\<close>, within
  \<open>1e-6\<close>, and its decimal expansion starts \<open>0.883\<close>.
\<close>

theorem C1_distance_formula:
  "distance_spec [Perimeter r, Concavity r] [p, c] = Inr (dist_from_new p c r)
   \<and> distance_spec [Perimeter r, Concavity r, Symmetry r] [p, c, s] = Inr (dist_from_new3 p c s r)
   \<and> \<bar>dist_from_new 0 3.5 (r\<lparr>Perimeter := 0.24, Concavity := 2.65\<rparr>) - sqrt (0.24\<^sup>2 + 0.85\<^sup>2)\<bar>
        \<le> 1 / 10 ^ 6
   \<and> 0.883 \<le> dist_from_new 0 3.5 (r\<lparr>Perimeter := 0.24, Concavity := 2.65\<rparr>)
   \<and> dist_from_new 0 3.5 (r\<lparr>Perimeter := 0.24, Concavity := 2.65\<rparr>) \<le> 0.884"
proof -
  have a: "distance_spec [Perimeter r, Concavity r] [p, c] = Inr (dist_from_new p c r)"
    by (simp add: distance_spec_def dist_from_new_def)
  have b: "distance_spec [Perimeter r, Concavity r, Symmetry r] [p, c, s]
             = Inr (dist_from_new3 p c s r)"
    by (simp add: distance_spec_def dist_from_new3_def add.assoc)
  have e: "dist_from_new 0 3.5 (r\<lparr>Perimeter := 0.24, Concavity := 2.65\<rparr>) = sqrt (0.24\<^sup>2 + 0.85\<^sup>2)"
    by (simp add: dist_from_new_def power2_eq_square)
  have "(0.883::real)\<^sup>2 \<le> 0.24\<^sup>2 + 0.85\<^sup>2" "(0.24::real)\<^sup>2 + 0.85\<^sup>2 \<le> 0.884\<^sup>2"
    by (simp_all add: power2_eq_square)
  then have f: "0.883 \<le> sqrt (0.24\<^sup>2 + 0.85\<^sup>2 :: real) \<and> sqrt (0.24\<^sup>2 + 0.85\<^sup>2 :: real) \<le> 0.884"
    using sqrt_between [of "0.883" "0.884" "0.24\<^sup>2 + 0.85\<^sup>2"] by simp
  show ?thesis using a b e f by simp
qed

text \<open>
  C9. For vectors of equal length the distance is symmetric, nonnegative, and zero exactly
  when the two vectors are equal elementwise; the same holds of the source's
  two-predictor expression, read between two rows or between a row and a new observation.
\<close>

theorem C9_distance_metric:
  assumes "length a = length b"
  shows "(\<exists>x. distance_spec a b = Inr x \<and> distance_spec b a = Inr x \<and> 0 \<le> x \<and> (x = 0 \<longleftrightarrow> a = b))
    \<and> dist_from_new (Perimeter s) (Concavity s) r = dist_from_new (Perimeter r) (Concavity r) s
    \<and> 0 \<le> dist_from_new p c r
    \<and> (dist_from_new p c r = 0 \<longleftrightarrow> Perimeter r = p \<and> Concavity r = c)"
proof -
  let ?q = "sum_list (map (\<lambda>(x, y). (x - y)\<^sup>2) (zip a b))"
  have ab: "distance_spec a b = Inr (sqrt ?q)"
    using assms by (simp add: distance_spec_def)
  have ba: "distance_spec b a = Inr (sqrt ?q)"
    using assms sq_diffs_commute [OF assms] by (simp add: distance_spec_def)
  have nn: "0 \<le> sqrt ?q" using sq_diffs_nonneg [of a b] by simp
  have z: "sqrt ?q = 0 \<longleftrightarrow> a = b"
    using sq_diffs_zero_iff [OF assms] by simp
  have s1: "dist_from_new (Perimeter s) (Concavity s) r = dist_from_new (Perimeter r) (Concavity r) s"
    by (simp add: dist_from_new_def power2_commute)
  have s2: "0 \<le> dist_from_new p c r" by (simp add: dist_from_new_def)
  have s3: "dist_from_new p c r = 0 \<longleftrightarrow> Perimeter r = p \<and> Concavity r = c"
    by (simp add: dist_from_new_def sum_power2_eq_zero_iff)
  show ?thesis using ab ba nn z s1 s2 s3 by blast
qed

text \<open>The theorem at the vectors \<open>(0, 3.5)\<close> and \<open>(0.24, 2.65)\<close>.\<close>

theorem C9_distance_metric_witness:
  "length [0, 3.5::real] = length [0.24, 2.65::real]
   \<and> (\<exists>x. distance_spec [0, 3.5] [0.24, 2.65] = Inr x \<and> distance_spec [0.24, 2.65] [0, 3.5] = Inr x
          \<and> 0 \<le> x \<and> x \<noteq> 0)"
  using C9_distance_metric [of "[0, 3.5]" "[0.24, 2.65]"] by simp

subsection \<open>Neighbour selection\<close>

lemma head_length:
  "length (head n xs) = (if 0 \<le> n then min (nat n) (length xs) else length xs - nat (- n))"
  by (auto simp add: head_def)

lemma head_is_take: "\<exists>j. head n xs = take j xs"
  by (auto simp add: head_def)

lemma sorter_length: "sort_values_ok srt \<Longrightarrow> length (srt key xs) = length xs"
  unfolding sort_values_ok_def by (metis mset_eq_length)

lemma sorter_set: "sort_values_ok srt \<Longrightarrow> set (srt key xs) = set xs"
  unfolding sort_values_ok_def by (metis mset_eq_setD)

lemma sorter_sorted: "sort_values_ok srt \<Longrightarrow> sorted (map key (srt key xs))"
  unfolding sort_values_ok_def by blast

lemma sorter_mset: "sort_values_ok srt \<Longrightarrow> mset (srt key xs) = mset xs"
  unfolding sort_values_ok_def by blast

lemma sort_key_ok: "sort_values_ok (\<lambda>key xs. sort_key key xs)"
  by (simp add: sort_values_ok_def)

lemma fst_with_dist: "map fst (with_dist d rows) = rows"
  by (simp add: with_dist_def comp_def)

lemma snd_with_dist: "n \<in> set (with_dist d rows) \<Longrightarrow> snd n = d (fst n)"
  by (auto simp: with_dist_def)

lemma sorted_rows_mset:
  assumes "sort_values_ok srt"
  shows "mset (map fst (srt snd (with_dist d rows))) = mset rows"
proof -
  have "mset (map fst (srt snd (with_dist d rows))) = image_mset fst (mset (srt snd (with_dist d rows)))"
    by simp
  also have "\<dots> = image_mset fst (mset (with_dist d rows))"
    using assms by (simp add: sorter_mset)
  also have "\<dots> = mset (map fst (with_dist d rows))" by simp
  finally show ?thesis by (simp add: fst_with_dist)
qed

lemma nearest_length:
  assumes "sort_values_ok srt"
  shows "length (nearest srt k d rows)
           = (if 0 \<le> k then min (nat k) (length rows) else length rows - nat (- k))"
  using assms by (simp add: nearest_def head_length sorter_length with_dist_def)

lemma nearest_mset_le:
  assumes "sort_values_ok srt"
  shows "mset (map fst (nearest srt k d rows)) \<subseteq># mset rows"
proof -
  obtain j where j: "nearest srt k d rows = take j (srt snd (with_dist d rows))"
    unfolding nearest_def using head_is_take by blast
  have "mset (map fst (take j (srt snd (with_dist d rows))))
          \<subseteq># mset (map fst (srt snd (with_dist d rows)))"
    by (metis append_take_drop_id map_append mset_append mset_subset_eq_add_left)
  then show ?thesis using j sorted_rows_mset [OF assms] by metis
qed

lemma take_le_drop:
  assumes "sorted (map key xs)" "a \<in> set (take n xs)" "b \<in> set (drop n xs)"
  shows "key a \<le> key b"
proof -
  have "sorted (map key (take n xs) @ map key (drop n xs))"
    using assms(1) by (simp flip: map_append)
  then show ?thesis using assms(2,3) by (auto simp: sorted_append)
qed

text \<open>
  C2. For a \<open>k\<close> between 1 and the size of the training set, sorting by distance and
  keeping the first \<open>k\<close> rows returns exactly \<open>k\<close> rows of the training set, each with
  its distance to the query, in ascending order of distance, and every training row left
  out is at least as far from the query as every row returned.
\<close>

theorem C2_nearest_k_smallest:
  assumes "sort_values_ok srt" and "1 \<le> k" and "k \<le> int (length rows)"
  shows "length (nearest srt k d rows) = nat k
    \<and> (\<forall>n \<in> set (nearest srt k d rows). snd n = d (fst n))
    \<and> sorted (map snd (nearest srt k d rows))
    \<and> mset (map fst (nearest srt k d rows)) \<subseteq># mset rows
    \<and> (\<forall>r \<in># mset rows - mset (map fst (nearest srt k d rows)).
         \<forall>n \<in> set (nearest srt k d rows). snd n \<le> d r)"
proof -
  define S where "S = srt snd (with_dist d rows)"
  have nr: "nearest srt k d rows = take (nat k) S"
    using assms(2) by (simp add: nearest_def head_def S_def)
  have len: "length S = length rows"
    using assms(1) by (simp add: S_def sorter_length with_dist_def)
  have setS: "set S = set (with_dist d rows)"
    using assms(1) by (simp add: S_def sorter_set)
  have srtd: "sorted (map snd S)"
    using assms(1) by (simp add: S_def sorter_sorted)
  have ms: "mset (map fst S) = mset rows"
    unfolding S_def by (rule sorted_rows_mset [OF assms(1)])
  have split: "mset (map fst (take (nat k) S)) + mset (map fst (drop (nat k) S)) = mset rows"
    using ms by (metis append_take_drop_id map_append mset_append)
  have c1: "length (nearest srt k d rows) = nat k"
    using assms(2,3) len by (simp add: nr)
  have c2: "\<forall>n \<in> set (nearest srt k d rows). snd n = d (fst n)"
    using setS snd_with_dist by (auto simp: nr dest!: in_set_takeD)
  have c3: "sorted (map snd (nearest srt k d rows))"
    using srtd by (simp add: nr take_map [symmetric] sorted_wrt_take)
  have c4: "mset (map fst (nearest srt k d rows)) \<subseteq># mset rows"
    unfolding nr using split by (metis mset_subset_eq_add_left)
  have rest: "mset rows - mset (map fst (nearest srt k d rows)) = mset (map fst (drop (nat k) S))"
    unfolding nr using split by (metis add_diff_cancel_left')
  have c5: "\<forall>r \<in># mset rows - mset (map fst (nearest srt k d rows)).
         \<forall>n \<in> set (nearest srt k d rows). snd n \<le> d r"
  proof (intro ballI)
    fix r n
    assume r: "r \<in># mset rows - mset (map fst (nearest srt k d rows))"
      and n: "n \<in> set (nearest srt k d rows)"
    from r rest obtain m where m: "m \<in> set (drop (nat k) S)" "r = fst m"
      by auto
    from m(1) have "m \<in> set S" by (rule in_set_dropD)
    then have "m \<in> set (with_dist d rows)" using setS by simp
    then have "snd m = d r" unfolding m(2) by (rule snd_with_dist)
    moreover have "snd n \<le> snd m"
      using take_le_drop [OF srtd _ m(1)] n by (simp add: nr)
    ultimately show "snd n \<le> d r" by simp
  qed
  show ?thesis using c1 c2 c3 c4 c5 by blast
qed

text \<open>The theorem at \<open>k = 3\<close> on the ten-row table, with insertion sort as the sort.\<close>

theorem C2_nearest_k_smallest_witness:
  "sort_values_ok (\<lambda>key xs. sort_key key xs :: (row \<times> real) list) \<and> (1::int) \<le> 3 \<and> (3::int) \<le> int (length ten_rows)
   \<and> length (nearest (\<lambda>key xs. sort_key key xs) 3 (dist_from_new 0 3.5) ten_rows) = 3
   \<and> sorted (map snd (nearest (\<lambda>key xs. sort_key key xs) 3 (dist_from_new 0 3.5) ten_rows))"
proof -
  have h1: "sort_values_ok (\<lambda>key xs. sort_key key xs :: (row \<times> real) list)" by (rule sort_key_ok)
  have h2: "(1::int) \<le> 3" by simp
  have h3: "(3::int) \<le> int (length ten_rows)" by (simp add: ten_rows_def)
  show ?thesis
    using h1 h2 h3 C2_nearest_k_smallest [OF h1 h2 h3, of "dist_from_new 0 3.5"] by simp
qed


lemma nearest_props:
  assumes "sort_values_ok srt"
  shows "(\<forall>n \<in> set (nearest srt k d rows). snd n = d (fst n))
    \<and> sorted (map snd (nearest srt k d rows))
    \<and> mset (map fst (nearest srt k d rows)) \<subseteq># mset rows
    \<and> (\<forall>r \<in># mset rows - mset (map fst (nearest srt k d rows)).
         \<forall>n \<in> set (nearest srt k d rows). snd n \<le> d r)"
proof -
  define S where "S = srt snd (with_dist d rows)"
  obtain j where nr: "nearest srt k d rows = take j S"
    unfolding nearest_def S_def using head_is_take by blast
  have setS: "set S = set (with_dist d rows)"
    using assms by (simp add: S_def sorter_set)
  have srtd: "sorted (map snd S)"
    using assms by (simp add: S_def sorter_sorted)
  have ms: "mset (map fst S) = mset rows"
    unfolding S_def by (rule sorted_rows_mset [OF assms])
  have split: "mset (map fst (take j S)) + mset (map fst (drop j S)) = mset rows"
    using ms by (metis append_take_drop_id map_append mset_append)
  have c2: "\<forall>n \<in> set (nearest srt k d rows). snd n = d (fst n)"
    using setS snd_with_dist by (auto simp: nr dest!: in_set_takeD)
  have c3: "sorted (map snd (nearest srt k d rows))"
    using srtd by (simp add: nr take_map [symmetric] sorted_wrt_take)
  have c4: "mset (map fst (nearest srt k d rows)) \<subseteq># mset rows"
    by (rule nearest_mset_le [OF assms])
  have rest: "mset rows - mset (map fst (nearest srt k d rows)) = mset (map fst (drop j S))"
    unfolding nr using split by (metis add_diff_cancel_left')
  have c5: "\<forall>r \<in># mset rows - mset (map fst (nearest srt k d rows)).
         \<forall>n \<in> set (nearest srt k d rows). snd n \<le> d r"
  proof (intro ballI)
    fix r n
    assume r: "r \<in># mset rows - mset (map fst (nearest srt k d rows))"
      and n: "n \<in> set (nearest srt k d rows)"
    from r rest obtain m where m: "m \<in> set (drop j S)" "r = fst m"
      by auto
    from m(1) have "m \<in> set S" by (rule in_set_dropD)
    then have "m \<in> set (with_dist d rows)" using setS by simp
    then have "snd m = d r" unfolding m(2) by (rule snd_with_dist)
    moreover have "snd n \<le> snd m"
      using take_le_drop [OF srtd _ m(1)] n by (simp add: nr)
    ultimately show "snd n \<le> d r" by simp
  qed
  show ?thesis using c2 c3 c4 c5 by blast
qed



subsection \<open>Classification\<close>

lemma vote_scan_ok: "majority_vote_ok vote_scan"
  unfolding majority_vote_ok_def
proof (intro allI impI conjI)
  fix ls :: "string list" assume ne: "ls \<noteq> []"
  show "vote_scan ls \<in> set ls"
    unfolding vote_scan_def using ne by (rule arg_min_list_in)
  fix l
  show "count_list ls l \<le> count_list ls (vote_scan ls)"
  proof (cases "l \<in> set ls")
    case True
    let ?f = "\<lambda>l. - int (count_list ls l)"
    have "?f (vote_scan ls) = Min (?f ` set ls)"
      unfolding vote_scan_def using ne by (rule f_arg_min_list_f)
    moreover have "Min (?f ` set ls) \<le> ?f l"
      using True by (intro Min_le) auto
    ultimately show ?thesis by simp
  next
    case False
    then have "count_list ls l = 0" by (simp add: count_list_0_iff)
    then show ?thesis by simp
  qed
qed

lemma vote_unique_max:
  assumes "majority_vote_ok vote" and "ls \<noteq> []"
    and "\<forall>l \<in> set ls. l \<noteq> w \<longrightarrow> count_list ls l < count_list ls w"
  shows "vote ls = w"
proof (rule ccontr)
  assume neq: "vote ls \<noteq> w"
  have "vote ls \<in> set ls" using assms(1,2) by (simp add: majority_vote_ok_def)
  with assms(3) neq have "count_list ls (vote ls) < count_list ls w" by blast
  moreover have "count_list ls w \<le> count_list ls (vote ls)"
    using assms(1,2) by (simp add: majority_vote_ok_def)
  ultimately show False by simp
qed

lemma count_two:
  "set ls \<subseteq> {a, b} \<Longrightarrow> a \<noteq> b \<Longrightarrow> count_list ls a + count_list ls b = length ls"
  by (induction ls) auto

lemma count_labels_le:
  assumes "mset xs \<subseteq># mset train"
  shows "count_list (map Class xs) l \<le> length (filter (\<lambda>r. Class r = l) train)"
proof -
  have "count_list (map Class xs) l = length (filter (\<lambda>r. Class r = l) xs)"
    by (induction xs) auto
  also have "\<dots> = size (filter_mset (\<lambda>r. Class r = l) (mset xs))"
    by (metis mset_filter size_mset)
  also have "\<dots> \<le> size (filter_mset (\<lambda>r. Class r = l) (mset train))"
    using assms by (intro size_mset_mono multiset_filter_mono)
  also have "\<dots> = length (filter (\<lambda>r. Class r = l) train)"
    by (metis mset_filter size_mset)
  finally show ?thesis .
qed

lemma neighbor_labels_eq:
  "neighbor_labels srt clf p c
     = map Class (map fst (nearest srt (n_neighbors clf) (dist_from_new p c) (training_set clf)))"
  by (simp add: neighbor_labels_def cancer_dist_def comp_def)

lemma build_Inr:
  "build train k = Inr clf \<Longrightarrow>
     clf = \<lparr>training_set = train, n_neighbors = k\<rparr> \<and> 1 \<le> k \<and> k \<le> int (length train)"
  by (auto simp: build_def split: if_splits)

lemma neighbor_labels_length:
  assumes "sort_values_ok srt" "build train k = Inr clf"
  shows "length (neighbor_labels srt clf p c) = nat k"
proof -
  from build_Inr [OF assms(2)] have "training_set clf = train" "n_neighbors clf = k"
    "1 \<le> k" "k \<le> int (length train)" by auto
  then show ?thesis
    using nearest_length [OF assms(1), of k "dist_from_new p c" train]
    by (simp add: neighbor_labels_eq)
qed

lemma dist_close:
  assumes "0 \<le> e" "e \<le> v"
    and "(v - e)\<^sup>2 \<le> (P - p)\<^sup>2 + (C - c)\<^sup>2"
    and "(P - p)\<^sup>2 + (C - c)\<^sup>2 \<le> (v + e)\<^sup>2"
  shows "\<bar>dist_from_new p c (mk_row i cl P C) - v\<bar> \<le> e"
proof -
  let ?x = "(P - p)\<^sup>2 + (C - c)\<^sup>2"
  have "v - e \<le> sqrt ?x" using assms(3) by (rule real_le_rsqrt)
  moreover have "sqrt ?x \<le> v + e" using assms(1,2,4) by (intro real_le_lsqrt) auto
  ultimately show ?thesis by (simp add: dist_from_new_def mk_row_def)
qed

lemma five_rows_distances:
  "list_all2 (\<lambda>d v. \<bar>d - v\<bar> \<le> 0.005) (map (dist_from_new 0 3.5) five_rows)
     [0.88, 0.98, 1.14, 1.26, 1.28]"
proof -
  have "\<bar>dist_from_new 0 3.5 (mk_row 1 ''Benign'' 0.24 2.65) - 0.88\<bar> \<le> 0.005"
    by (rule dist_close) (simp_all add: power2_eq_square)
  moreover have "\<bar>dist_from_new 0 3.5 (mk_row 2 ''Malignant'' 0.75 2.87) - 0.98\<bar> \<le> 0.005"
    by (rule dist_close) (simp_all add: power2_eq_square)
  moreover have "\<bar>dist_from_new 0 3.5 (mk_row 3 ''Malignant'' 0.62 2.54) - 1.14\<bar> \<le> 0.005"
    by (rule dist_close) (simp_all add: power2_eq_square)
  moreover have "\<bar>dist_from_new 0 3.5 (mk_row 4 ''Malignant'' 0.42 2.31) - 1.26\<bar> \<le> 0.005"
    by (rule dist_close) (simp_all add: power2_eq_square)
  moreover have "\<bar>dist_from_new 0 3.5 (mk_row 5 ''Benign'' (- 1.16) 4.04) - 1.28\<bar> \<le> 0.005"
    by (rule dist_close) (simp_all add: power2_eq_square)
  ultimately show ?thesis unfolding five_rows_def by simp
qed

lemma five_rows_labels:
  assumes "sort_values_ok srt"
  shows "mset (neighbor_labels srt \<lparr>training_set = five_rows, n_neighbors = 5\<rparr> 0 3.5)
           = mset [''Benign'', ''Malignant'', ''Malignant'', ''Malignant'', ''Benign'']"
proof -
  let ?S = "srt snd (with_dist (dist_from_new 0 3.5) five_rows)"
  have "length ?S = 5" using assms by (simp add: sorter_length with_dist_def five_rows_def)
  then have "nearest srt 5 (dist_from_new 0 3.5) five_rows = ?S"
    by (simp add: nearest_def head_def)
  then have "mset (neighbor_labels srt \<lparr>training_set = five_rows, n_neighbors = 5\<rparr> 0 3.5)
      = image_mset Class (mset (map fst ?S))"
    by (simp add: neighbor_labels_eq multiset.map_comp)
  also have "\<dots> = image_mset Class (mset five_rows)"
    using sorted_rows_mset [OF assms] by metis
  also have "\<dots> = mset [''Benign'', ''Malignant'', ''Malignant'', ''Malignant'', ''Benign'']"
    by (simp add: five_rows_def mk_row_def)
  finally show ?thesis .
qed

lemma five_rows_vote:
  assumes "sort_values_ok srt" and "majority_vote_ok vote"
  shows "predictOne srt vote \<lparr>training_set = five_rows, n_neighbors = 5\<rparr> 0 3.5 = ''Malignant''"
proof -
  let ?ls = "neighbor_labels srt \<lparr>training_set = five_rows, n_neighbors = 5\<rparr> 0 3.5"
  have cnt: "count_list ?ls l
      = count (mset [''Benign'', ''Malignant'', ''Malignant'', ''Malignant'', ''Benign'']) l" for l
    using five_rows_labels [OF assms(1)] by (metis count_mset)
  have ne: "?ls \<noteq> []"
    using five_rows_labels [OF assms(1)] by auto
  have "set ?ls = set [''Benign'', ''Malignant'', ''Malignant'', ''Malignant'', ''Benign'']"
    using five_rows_labels [OF assms(1)] by (rule mset_eq_setD)
  then have "\<forall>l \<in> set ?ls. l \<noteq> ''Malignant'' \<longrightarrow> count_list ?ls l < count_list ?ls ''Malignant''"
    using cnt [of "''Benign''"] cnt [of "''Malignant''"] by simp
  then have "vote ?ls = ''Malignant''"
    by (rule vote_unique_max [OF assms(2) ne])
  then show ?thesis by (simp add: predictOne_def)
qed

lemma set_tally: "set (tally ls) = (\<lambda>l. (l, count_list ls l)) ` set ls"
  by (simp add: tally_def)

lemma set_top_labels:
  "set (top_labels ls) = {w \<in> set ls. \<forall>l \<in> set ls. count_list ls l \<le> count_list ls w}"
  by (force simp: top_labels_def set_tally list_all_iff)

lemma top_labels_max:
  assumes "w \<in> set (top_labels ls)"
  shows "w \<in> set ls \<and> (\<forall>l. count_list ls l \<le> count_list ls w)"
proof -
  from assms have w: "w \<in> set ls" and m: "\<forall>l \<in> set ls. count_list ls l \<le> count_list ls w"
    by (simp_all add: set_top_labels)
  have "count_list ls l \<le> count_list ls w" for l
  proof (cases "l \<in> set ls")
    case True
    with m show ?thesis by blast
  next
    case False
    then show ?thesis by (simp add: count_list_0_iff)
  qed
  with w show ?thesis by blast
qed

lemma top_labels_nonempty:
  assumes "ls \<noteq> []"
  shows "top_labels ls \<noteq> []"
proof -
  have "vote_scan ls \<in> set ls" and "\<forall>l. count_list ls l \<le> count_list ls (vote_scan ls)"
    using vote_scan_ok assms by (simp_all add: majority_vote_ok_def)
  then have "vote_scan ls \<in> set (top_labels ls)" by (simp add: set_top_labels)
  then show ?thesis by auto
qed

lemma majority_vote_meets: "pick_ok pick \<Longrightarrow> majority_vote_ok (majority_vote pick)"
  unfolding majority_vote_ok_def majority_vote_def pick_ok_def
  using top_labels_nonempty top_labels_max by blast

lemma hd_pick_ok: "pick_ok hd"
  by (simp add: pick_ok_def)

lemma sorted_filter_split:
  fixes key :: "'a \<Rightarrow> real"
  shows "sorted (map key xs) \<Longrightarrow>
    filter (\<lambda>x. key x < t) xs @ filter (\<lambda>x. \<not> key x < t) xs = xs"
proof (induction xs)
  case Nil
  show ?case by simp
next
  case (Cons x xs)
  then have le: "\<forall>y \<in> set xs. key x \<le> key y" and s: "sorted (map key xs)" by auto
  show ?case
  proof (cases "key x < t")
    case True
    then show ?thesis using Cons.IH [OF s] by simp
  next
    case False
    with le have "\<forall>y \<in> set xs. \<not> key y < t" by auto
    then have "filter (\<lambda>x. key x < t) xs = []" "filter (\<lambda>x. \<not> key x < t) xs = xs"
      by (simp_all add: filter_empty_conv filter_id_conv)
    with False show ?thesis by simp
  qed
qed

lemma take_sorted_below:
  fixes key :: "'a \<Rightarrow> real"
  assumes "sorted (map key xs)" and "length (filter (\<lambda>x. key x < t) xs) = k"
  shows "take k xs = filter (\<lambda>x. key x < t) xs"
proof -
  have "take k (filter (\<lambda>x. key x < t) xs @ filter (\<lambda>x. \<not> key x < t) xs)
          = filter (\<lambda>x. key x < t) xs"
    using assms(2) by simp
  then show ?thesis using sorted_filter_split [OF assms(1), of t] by simp
qed

lemma dist_lt:
  assumes "0 < t"
  shows "dist_from_new p c (mk_row i cl P C) < t \<longleftrightarrow> (P - p)\<^sup>2 + (C - c)\<^sup>2 < t\<^sup>2"
proof -
  have "sqrt ((P - p)\<^sup>2 + (C - c)\<^sup>2) < sqrt (t\<^sup>2) \<longleftrightarrow> (P - p)\<^sup>2 + (C - c)\<^sup>2 < t\<^sup>2"
    by (rule real_sqrt_less_iff)
  moreover have "sqrt (t\<^sup>2) = t" using assms by simp
  ultimately show ?thesis by (simp add: dist_from_new_def mk_row_def)
qed

lemma eight_rows_near:
  "filter (\<lambda>n. snd n < 2) (with_dist (dist_from_new 0 3.5) eight_rows)
     = with_dist (dist_from_new 0 3.5) five_rows"
  by (simp add: with_dist_def eight_rows_def five_rows_def dist_lt power2_eq_square)

lemma eight_rows_labels:
  assumes "sort_values_ok srt"
  shows "mset (neighbor_labels srt \<lparr>training_set = eight_rows, n_neighbors = 5\<rparr> 0 3.5)
           = mset [''Benign'', ''Malignant'', ''Malignant'', ''Malignant'', ''Benign'']"
proof -
  let ?W = "with_dist (dist_from_new 0 3.5) eight_rows"
  let ?S = "srt snd ?W"
  let ?P = "\<lambda>n::row \<times> real. snd n < 2"
  have ms: "mset (filter ?P ?S) = mset (filter ?P ?W)"
    using assms by (simp add: sorter_mset)
  then have "length (filter ?P ?S) = length (filter ?P ?W)"
    by (rule mset_eq_length)
  also have "\<dots> = 5" unfolding eight_rows_near by (simp add: with_dist_def five_rows_def)
  finally have len5: "length (filter ?P ?S) = 5" .
  have srtS: "sorted (map snd ?S)" by (rule sorter_sorted [OF assms])
  have "take 5 ?S = filter ?P ?S"
    by (rule take_sorted_below [OF srtS len5])
  then have nr: "nearest srt 5 (dist_from_new 0 3.5) eight_rows = filter ?P ?S"
    by (simp add: nearest_def head_def)
  have "mset (map fst (filter ?P ?S)) = mset (map fst (filter ?P ?W))"
    using ms by (metis mset_map)
  also have "\<dots> = mset five_rows"
    unfolding eight_rows_near by (simp add: fst_with_dist)
  finally have "mset (map fst (nearest srt 5 (dist_from_new 0 3.5) eight_rows)) = mset five_rows"
    by (simp only: nr)
  then have "image_mset Class (mset (map fst (nearest srt 5 (dist_from_new 0 3.5) eight_rows)))
      = image_mset Class (mset five_rows)"
    by simp
  then have "mset (neighbor_labels srt \<lparr>training_set = eight_rows, n_neighbors = 5\<rparr> 0 3.5)
      = image_mset Class (mset five_rows)"
    by (simp add: neighbor_labels_eq multiset.map_comp)
  also have "\<dots> = mset [''Benign'', ''Malignant'', ''Malignant'', ''Malignant'', ''Benign'']"
    by (simp add: five_rows_def mk_row_def)
  finally show ?thesis .
qed

lemma three_of_five:
  assumes "majority_vote_ok vote"
    and "mset ls = mset [''Benign'', ''Malignant'', ''Malignant'', ''Malignant'', ''Benign'']"
  shows "vote ls = ''Malignant''"
proof -
  have cnt: "count_list ls l
      = count (mset [''Benign'', ''Malignant'', ''Malignant'', ''Malignant'', ''Benign'']) l" for l
    using assms(2) by (metis count_mset)
  have ne: "ls \<noteq> []" using assms(2) by auto
  have "set ls = set [''Benign'', ''Malignant'', ''Malignant'', ''Malignant'', ''Benign'']"
    using assms(2) by (rule mset_eq_setD)
  then have "\<forall>l \<in> set ls. l \<noteq> ''Malignant'' \<longrightarrow> count_list ls l < count_list ls ''Malignant''"
    using cnt [of "''Benign''"] cnt [of "''Malignant''"] by simp
  then show ?thesis by (rule vote_unique_max [OF assms(1) ne])
qed

text \<open>
  C3. For a classifier returned by \<open>build\<close>, the labels that \<open>predictOne\<close> tallies are
  those of \<open>k\<close> rows of the training set, each with its distance to the query, in
  ascending order of distance, every training row left out being at least as far as
  every one of them; and the label returned is one of these labels, whose count among
  them is the highest. For the five rows of the worked example, with labels
  \<open>[B, M, M, M, B]\<close> at distances \<open>0.88, 0.98, 1.14, 1.26, 1.28\<close> (to two decimals)
  from the new observation \<open>(0, 3.5)\<close>, and \<open>k = 5\<close>, it returns \<open>Malignant\<close>; and
  it still does when three benign rows further away stand before them in the table, where
  the first five rows in table order are four benign and one malignant.
\<close>

theorem C3_majority_vote:
  assumes "sort_values_ok srt" and "pick_ok pick"
  shows "(build train k = Inr clf \<longrightarrow>
           (\<exists>nb. neighbor_labels srt clf p c = map (\<lambda>n. Class (fst n)) nb
              \<and> length nb = nat k
              \<and> (\<forall>n \<in> set nb. snd n = dist_from_new p c (fst n))
              \<and> sorted (map snd nb)
              \<and> mset (map fst nb) \<subseteq># mset train
              \<and> (\<forall>r \<in># mset train - mset (map fst nb).
                    \<forall>n \<in> set nb. snd n \<le> dist_from_new p c r))
         \<and> predictOne srt (majority_vote pick) clf p c \<in> set (neighbor_labels srt clf p c)
         \<and> (\<forall>l. count_list (neighbor_labels srt clf p c) l
                 \<le> count_list (neighbor_labels srt clf p c)
                      (predictOne srt (majority_vote pick) clf p c)))
    \<and> build five_rows 5 = Inr \<lparr>training_set = five_rows, n_neighbors = 5\<rparr>
    \<and> map Class five_rows = [''Benign'', ''Malignant'', ''Malignant'', ''Malignant'', ''Benign'']
    \<and> list_all2 (\<lambda>d v. \<bar>d - v\<bar> \<le> 0.005) (map (dist_from_new 0 3.5) five_rows)
         [0.88, 0.98, 1.14, 1.26, 1.28]
    \<and> predictOne srt (majority_vote pick) \<lparr>training_set = five_rows, n_neighbors = 5\<rparr> 0 3.5
         = ''Malignant''
    \<and> build eight_rows 5 = Inr \<lparr>training_set = eight_rows, n_neighbors = 5\<rparr>
    \<and> map Class (take 5 eight_rows) = [''Benign'', ''Benign'', ''Benign'', ''Benign'', ''Malignant'']
    \<and> predictOne srt (majority_vote pick) \<lparr>training_set = eight_rows, n_neighbors = 5\<rparr> 0 3.5
         = ''Malignant''"
proof -
  have mv: "majority_vote_ok (majority_vote pick)"
    using assms(2) by (rule majority_vote_meets)
  have gen: "(\<exists>nb. neighbor_labels srt clf p c = map (\<lambda>n. Class (fst n)) nb
              \<and> length nb = nat k
              \<and> (\<forall>n \<in> set nb. snd n = dist_from_new p c (fst n))
              \<and> sorted (map snd nb)
              \<and> mset (map fst nb) \<subseteq># mset train
              \<and> (\<forall>r \<in># mset train - mset (map fst nb).
                    \<forall>n \<in> set nb. snd n \<le> dist_from_new p c r))
         \<and> predictOne srt (majority_vote pick) clf p c \<in> set (neighbor_labels srt clf p c)
         \<and> (\<forall>l. count_list (neighbor_labels srt clf p c) l
                 \<le> count_list (neighbor_labels srt clf p c)
                      (predictOne srt (majority_vote pick) clf p c))"
    if b: "build train k = Inr clf"
  proof -
    from build_Inr [OF b] have clf: "training_set clf = train" "n_neighbors clf = k"
      and k: "1 \<le> k" "k \<le> int (length train)" by auto
    let ?nb = "nearest srt k (dist_from_new p c) train"
    have lab: "neighbor_labels srt clf p c = map (\<lambda>n. Class (fst n)) ?nb"
      by (simp add: neighbor_labels_def cancer_dist_def clf)
    have len: "length ?nb = nat k"
      using nearest_length [OF assms(1), of k "dist_from_new p c" train] k by simp
    have ne: "neighbor_labels srt clf p c \<noteq> []" using len k lab by auto
    have ex: "\<exists>nb. neighbor_labels srt clf p c = map (\<lambda>n. Class (fst n)) nb
              \<and> length nb = nat k
              \<and> (\<forall>n \<in> set nb. snd n = dist_from_new p c (fst n))
              \<and> sorted (map snd nb)
              \<and> mset (map fst nb) \<subseteq># mset train
              \<and> (\<forall>r \<in># mset train - mset (map fst nb).
                    \<forall>n \<in> set nb. snd n \<le> dist_from_new p c r)"
      using lab len nearest_props [OF assms(1), of k "dist_from_new p c" train] by blast
    show ?thesis
      using mv ne ex unfolding majority_vote_ok_def predictOne_def by blast
  qed
  have b5: "build five_rows 5 = Inr \<lparr>training_set = five_rows, n_neighbors = 5\<rparr>"
    by (simp add: build_def five_rows_def)
  have l5: "map Class five_rows = [''Benign'', ''Malignant'', ''Malignant'', ''Malignant'', ''Benign'']"
    by (simp add: five_rows_def mk_row_def)
  have b8: "build eight_rows 5 = Inr \<lparr>training_set = eight_rows, n_neighbors = 5\<rparr>"
    by (simp add: build_def eight_rows_def five_rows_def)
  have l8: "map Class (take 5 eight_rows)
              = [''Benign'', ''Benign'', ''Benign'', ''Benign'', ''Malignant'']"
    by (simp add: eight_rows_def five_rows_def mk_row_def)
  have p8: "predictOne srt (majority_vote pick) \<lparr>training_set = eight_rows, n_neighbors = 5\<rparr> 0 3.5
         = ''Malignant''"
    unfolding predictOne_def by (rule three_of_five [OF mv eight_rows_labels [OF assms(1)]])
  show ?thesis
    using gen b5 l5 five_rows_distances five_rows_vote [OF assms(1) mv] b8 l8 p8 by blast
qed

text \<open>
  The theorem on the eight-row table, with insertion sort as the sort and the first of
  the labels of highest count as the pick.
\<close>

theorem C3_majority_vote_witness:
  "sort_values_ok (\<lambda>key xs. sort_key key xs :: (row \<times> real) list)
   \<and> pick_ok hd
   \<and> build eight_rows 5 = Inr \<lparr>training_set = eight_rows, n_neighbors = 5\<rparr>
   \<and> predictOne (\<lambda>key xs. sort_key key xs) (majority_vote hd)
         \<lparr>training_set = eight_rows, n_neighbors = 5\<rparr> 0 3.5 \<in>
       set (neighbor_labels (\<lambda>key xs. sort_key key xs)
              \<lparr>training_set = eight_rows, n_neighbors = 5\<rparr> 0 3.5)
   \<and> predictOne (\<lambda>key xs. sort_key key xs) (majority_vote hd)
         \<lparr>training_set = eight_rows, n_neighbors = 5\<rparr> 0 3.5 = ''Malignant''"
proof -
  have h1: "sort_values_ok (\<lambda>key xs. sort_key key xs :: (row \<times> real) list)"
    by (rule sort_key_ok)
  have h2: "pick_ok hd" by (rule hd_pick_ok)
  show ?thesis
    using h1 h2
      C3_majority_vote [OF h1 h2, of eight_rows 5 "\<lparr>training_set = eight_rows, n_neighbors = 5\<rparr>"
        0 "3.5"]
    by blast
qed

text \<open>
  The imbalanced table of the source has at most three malignant rows and no label other
  than \<open>Malignant\<close> and \<open>Benign\<close>, whatever the file holds.
\<close>

lemma rare_cancer_labels:
  "length (filter (\<lambda>r. Class r = ''Malignant'') (rare_cancer cancer)) \<le> 3
   \<and> (\<forall>r \<in> set (rare_cancer cancer). Class r = ''Malignant'' \<or> Class r = ''Benign'')"
proof -
  let ?f = "\<lambda>r::row. r\<lparr>Class := (if Class r = ''M'' then ''Malignant'' else ''Benign'')\<rparr>"
  let ?g = "\<lambda>r::row. r\<lparr>Class := class_dscp (Class r)\<rparr>"
  have eq: "filter (\<lambda>r. Class r = ''Malignant'') (map ?g (map ?f xs))
              = map ?g (map ?f (filter (\<lambda>r. Class r = ''M'') xs))"
    for xs :: "row list"
    by (induction xs) (auto simp: class_dscp_def)
  have b: "filter (\<lambda>r. Class r = ''M'') (filter (\<lambda>r. Class r = ''B'') cancer) = []"
    by (induction cancer) auto
  have "length (filter (\<lambda>r. Class r = ''M'') (head 3 (filter (\<lambda>r. Class r = ''M'') cancer)))
          \<le> length (head 3 (filter (\<lambda>r. Class r = ''M'') cancer))"
    by (rule length_filter_le)
  also have "\<dots> \<le> 3" by (simp add: head_length)
  finally have "length (filter (\<lambda>r. Class r = ''Malignant'') (rare_cancer cancer)) \<le> 3"
    unfolding rare_cancer_def eq by (simp add: b)
  moreover have "\<forall>r \<in> set (rare_cancer cancer). Class r = ''Malignant'' \<or> Class r = ''Benign''"
    by (auto simp: rare_cancer_def class_dscp_def split: if_splits)
  ultimately show ?thesis by blast
qed

text \<open>
  C10. For a training set with at most 3 rows of one label and at least 4 rows of the
  other, a classifier built with \<open>k = 7\<close> returns the other label for every query: at
  most 3 of the 7 votes carry the rare label.
\<close>

theorem C10_rare_class_never_predicted:
  assumes "sort_values_ok srt" and "majority_vote_ok vote"
    and "build train 7 = Inr clf"
    and "length (filter (\<lambda>r. Class r = rare) train) \<le> 3"
    and "4 \<le> length (filter (\<lambda>r. Class r = other) train)"
    and "\<forall>r \<in> set train. Class r = rare \<or> Class r = other"
    and "rare \<noteq> other"
  shows "predictOne srt vote clf p c = other"
proof -
  let ?nb = "map fst (nearest srt (n_neighbors clf) (dist_from_new p c) (training_set clf))"
  let ?ls = "neighbor_labels srt clf p c"
  from build_Inr [OF assms(3)] have clf: "training_set clf = train" "n_neighbors clf = 7"
    by auto
  have ls: "?ls = map Class ?nb" by (rule neighbor_labels_eq)
  have len: "length ?ls = 7"
    using neighbor_labels_length [OF assms(1,3)] by simp
  have sub: "mset ?nb \<subseteq># mset train"
    using nearest_mset_le [OF assms(1)] clf by metis
  then have "set ?nb \<subseteq> set train" by (metis set_mset_mono set_mset_mset)
  then have two: "set ?ls \<subseteq> {rare, other}"
    using assms(6) unfolding ls by auto
  have "count_list ?ls rare \<le> length (filter (\<lambda>r. Class r = rare) train)"
    unfolding ls by (rule count_labels_le [OF sub])
  then have r3: "count_list ?ls rare \<le> 3" using assms(4) by simp
  have "count_list ?ls rare + count_list ?ls other = length ?ls"
    by (rule count_two [OF two assms(7)])
  then have o4: "4 \<le> count_list ?ls other" using r3 len by simp
  have ne: "?ls \<noteq> []" using len by auto
  have "\<forall>l \<in> set ?ls. l \<noteq> other \<longrightarrow> count_list ?ls l < count_list ?ls other"
    using two r3 o4 by auto
  then have "vote ?ls = other"
    by (rule vote_unique_max [OF assms(2) ne])
  then show ?thesis by (simp add: predictOne_def)
qed

text \<open>The theorem on three malignant and four benign rows, queried at \<open>(2, 2)\<close>.\<close>

theorem C10_rare_class_never_predicted_witness:
  "sort_values_ok (\<lambda>key xs. sort_key key xs :: (row \<times> real) list)
   \<and> majority_vote_ok vote_scan
   \<and> build seven_rows 7 = Inr \<lparr>training_set = seven_rows, n_neighbors = 7\<rparr>
   \<and> length (filter (\<lambda>r. Class r = ''Malignant'') seven_rows) \<le> 3
   \<and> 4 \<le> length (filter (\<lambda>r. Class r = ''Benign'') seven_rows)
   \<and> list_all (\<lambda>r. Class r = ''Malignant'' \<or> Class r = ''Benign'') seven_rows
   \<and> ''Malignant'' \<noteq> ''Benign''
   \<and> predictOne (\<lambda>key xs. sort_key key xs) vote_scan
         \<lparr>training_set = seven_rows, n_neighbors = 7\<rparr> 2 2 = ''Benign''"
proof -
  have h1: "sort_values_ok (\<lambda>key xs. sort_key key xs :: (row \<times> real) list)"
    by (rule sort_key_ok)
  have h2: "majority_vote_ok vote_scan" by (rule vote_scan_ok)
  have h3: "build seven_rows 7 = Inr \<lparr>training_set = seven_rows, n_neighbors = 7\<rparr>"
    by (simp add: build_def seven_rows_def)
  have h4: "length (filter (\<lambda>r. Class r = ''Malignant'') seven_rows) \<le> 3"
    by (simp add: seven_rows_def mk_row_def)
  have h5: "4 \<le> length (filter (\<lambda>r. Class r = ''Benign'') seven_rows)"
    by (simp add: seven_rows_def mk_row_def)
  have h6: "\<forall>r \<in> set seven_rows. Class r = ''Malignant'' \<or> Class r = ''Benign''"
    by (simp add: seven_rows_def mk_row_def)
  have h7: "''Malignant'' \<noteq> ''Benign''" by simp
  show ?thesis
    using h1 h2 h3 h4 h5 h6 h7
      C10_rare_class_never_predicted [OF h1 h2 h3 h4 h5 h6 h7, of 2 2]
    by (simp add: list_all_iff)
qed

subsection \<open>Oversampling\<close>

lemma resample_Some:
  assumes "randint_ok randint" and "rows \<noteq> []"
  shows "\<exists>up. resample randint rows n = Some up \<and> length up = n \<and> set up \<subseteq> set rows"
proof -
  let ?idx = "randint (length rows) n"
  have pos: "0 < length rows" using assms(2) by simp
  have len: "length ?idx = n" and rng: "\<forall>i \<in> set ?idx. i < length rows"
    using assms(1) pos unfolding randint_ok_def by blast+
  have "set (map (\<lambda>i. rows ! i) ?idx) \<subseteq> set rows"
    using rng by auto
  then show ?thesis using assms(2) len by (simp add: resample_def)
qed

lemma filter_all: "set xs \<subseteq> {x. P x} \<Longrightarrow> filter P xs = xs"
  by (induction xs) auto

lemma filter_none: "set xs \<subseteq> {x. \<not> P x} \<Longrightarrow> filter P xs = []"
  by (induction xs) auto

lemma draw_first_ok: "randint_ok draw_first"
  by (auto simp: randint_ok_def draw_first_def)

text \<open>
  C5, as the source has it. The claim is that for every table with two labels each class
  ends with as many rows as the majority class, the majority class passing through
  unchanged and every original minority row still present. The source always resamples
  the \<open>Malignant\<close> rows to the number of \<open>Benign\<close> rows. On a table with two malignant
  rows and one benign row the majority class has 2 rows, and the result holds one
  malignant and one benign row, whichever of the two positions is drawn.
\<close>

theorem C5_counterexample:
  "length (malignant_cancer small_table) = 2 \<and> length (benign_cancer small_table) = 1
   \<and> draw_first 2 1 = [0] \<and> draw_last 2 1 = [1]
   \<and> upsampled_cancer draw_first small_table
       = Some [mk_row 1 ''Malignant'' 2 2, mk_row 3 ''Benign'' 0 0]
   \<and> upsampled_cancer draw_last small_table
       = Some [mk_row 2 ''Malignant'' 3 3, mk_row 3 ''Benign'' 0 0]"
  by (simp add: upsampled_cancer_def resample_def draw_first_def draw_last_def
        malignant_cancer_def benign_cancer_def small_table_def mk_row_def)

text \<open>
  Drawing with replacement can repeat a row and so leave another out: on a table with two
  rows of each label, a generator that draws the first position twice gives a result
  without the second malignant row. Nothing in the source makes every original row appear.
\<close>

lemma upsample_can_leave_a_row_out:
  "upsampled_cancer draw_first even_table
       = Some [mk_row 1 ''Malignant'' 2 2, mk_row 1 ''Malignant'' 2 2,
               mk_row 3 ''Benign'' 0 0, mk_row 4 ''Benign'' 0 1]
   \<and> mk_row 2 ''Malignant'' 3 3 \<in> set even_table
   \<and> mk_row 2 ''Malignant'' 3 3
       \<notin> set [mk_row 1 ''Malignant'' 2 2, mk_row 1 ''Malignant'' 2 2,
               mk_row 3 ''Benign'' 0 0, mk_row 4 ''Benign'' 0 1]"
  by (simp add: upsampled_cancer_def resample_def draw_first_def
        malignant_cancer_def benign_cancer_def even_table_def mk_row_def)

text \<open>
  C5, amended. For every table with at least one \<open>Malignant\<close> row, the result is the
  drawn rows followed by the \<open>Benign\<close> rows unchanged; the drawn rows are as many as
  the \<open>Benign\<close> rows, each of them one of the table's \<open>Malignant\<close> rows, and they are
  exactly the \<open>Malignant\<close> rows of the result. So the two classes have equal counts, the
  number of \<open>Benign\<close> rows, which is the majority size when \<open>Benign\<close> is the majority.
\<close>

theorem C5_upsample_balances:
  assumes "randint_ok randint" and "malignant_cancer rare \<noteq> []"
  shows "\<exists>drawn.
           resample randint (malignant_cancer rare) (length (benign_cancer rare)) = Some drawn
         \<and> upsampled_cancer randint rare = Some (drawn @ benign_cancer rare)
         \<and> malignant_cancer (drawn @ benign_cancer rare) = drawn
         \<and> benign_cancer (drawn @ benign_cancer rare) = benign_cancer rare
         \<and> length drawn = length (benign_cancer rare)
         \<and> set drawn \<subseteq> set (malignant_cancer rare)"
proof -
  from resample_Some [OF assms] obtain drawn where
    d: "resample randint (malignant_cancer rare) (length (benign_cancer rare)) = Some drawn"
       "length drawn = length (benign_cancer rare)" "set drawn \<subseteq> set (malignant_cancer rare)"
    by blast
  have up: "upsampled_cancer randint rare = Some (drawn @ benign_cancer rare)"
    by (simp add: upsampled_cancer_def d(1))
  have dm: "set drawn \<subseteq> {r. Class r = ''Malignant''}"
    using d(3) by (auto simp: malignant_cancer_def)
  have bb: "set (benign_cancer rare) \<subseteq> {r. Class r = ''Benign''}"
    by (auto simp: benign_cancer_def)
  have m1: "filter (\<lambda>r. Class r = ''Malignant'') drawn = drawn"
    using dm by (rule filter_all)
  have m2: "filter (\<lambda>r. Class r = ''Malignant'') (benign_cancer rare) = []"
    using bb by (intro filter_none) auto
  have b1: "filter (\<lambda>r. Class r = ''Benign'') drawn = []"
    using dm by (intro filter_none) auto
  have b2: "filter (\<lambda>r. Class r = ''Benign'') (benign_cancer rare) = benign_cancer rare"
    using bb by (rule filter_all)
  have m: "malignant_cancer (drawn @ benign_cancer rare) = drawn"
    using m1 m2 unfolding malignant_cancer_def [of "drawn @ benign_cancer rare"] by simp
  have b: "benign_cancer (drawn @ benign_cancer rare) = benign_cancer rare"
    using b1 b2 unfolding benign_cancer_def [of "drawn @ benign_cancer rare"] by simp
  show ?thesis using d up m b by blast
qed

text \<open>The theorem on the table with two rows of each label, drawing the first position.\<close>

theorem C5_upsample_balances_witness:
  "randint_ok draw_first \<and> malignant_cancer even_table \<noteq> []
   \<and> upsampled_cancer draw_first even_table
       = Some ([mk_row 1 ''Malignant'' 2 2, mk_row 1 ''Malignant'' 2 2] @ benign_cancer even_table)
   \<and> length [mk_row 1 ''Malignant'' 2 2, mk_row 1 ''Malignant'' 2 2] = length (benign_cancer even_table)"
proof -
  have h1: "randint_ok draw_first" by (rule draw_first_ok)
  have h2: "malignant_cancer even_table \<noteq> []"
    by (simp add: malignant_cancer_def even_table_def mk_row_def)
  have r: "resample draw_first (malignant_cancer even_table) (length (benign_cancer even_table))
            = Some [mk_row 1 ''Malignant'' 2 2, mk_row 1 ''Malignant'' 2 2]"
    by (simp add: resample_def draw_first_def malignant_cancer_def benign_cancer_def
          even_table_def mk_row_def)
  show ?thesis
    using h1 h2 r C5_upsample_balances [OF h1 h2] by auto
qed

subsection \<open>Standardisation\<close>

lemma sum_scaled:
  "sum_list (map (\<lambda>v. (v - m) / s) xs) = (sum_list xs - real (length xs) * m) / (s::real)"
  by (induction xs) (simp_all add: diff_divide_distrib add_divide_distrib algebra_simps)

lemma sum_sq_scaled:
  "sum_list (map (\<lambda>v. ((v - m) / s)\<^sup>2) xs) = sum_list (map (\<lambda>v. (v - m)\<^sup>2) xs) / (s::real)\<^sup>2"
  by (induction xs) (simp_all add: power_divide add_divide_distrib)

lemma mean_standardized:
  assumes "xs \<noteq> []"
  shows "mean (map (\<lambda>v. (v - mean xs) / s) xs) = 0"
proof -
  have n: "real (length xs) \<noteq> 0" using assms by simp
  have "real (length xs) * mean xs = sum_list xs"
    using n by (simp add: mean_def)
  then have "sum_list (map (\<lambda>v. (v - mean xs) / s) xs) = 0"
    by (simp add: sum_scaled)
  then show ?thesis by (simp add: mean_def)
qed

lemma stddev_standardized:
  assumes "xs \<noteq> []" and "stddev xs \<noteq> 0"
  shows "stddev (map (\<lambda>v. (v - mean xs) / stddev xs) xs) = 1"
proof -
  let ?n = "real (length xs)"
  let ?Q = "sum_list (map (\<lambda>v. (v - mean xs)\<^sup>2) xs)"
  let ?ys = "map (\<lambda>v. (v - mean xs) / stddev xs) xs"
  have n: "0 < ?n" using assms(1) by simp
  have Q0: "0 \<le> ?Q" by (rule sum_list_nonneg) auto
  have s2: "(stddev xs)\<^sup>2 = ?Q / ?n"
    using Q0 n by (simp add: stddev_def)
  have Qn: "?Q / ?n \<noteq> 0" using assms(2) s2 by auto
  have "sum_list (map (\<lambda>y. (y - mean ?ys)\<^sup>2) ?ys) = sum_list (map (\<lambda>v. ((v - mean xs) / stddev xs)\<^sup>2) xs)"
    by (simp add: mean_standardized [OF assms(1)] comp_def)
  also have "\<dots> = ?Q / (?Q / ?n)"
    by (simp only: sum_sq_scaled s2)
  finally have fin: "sum_list (map (\<lambda>y. (y - mean ?ys)\<^sup>2) ?ys) / real (length ?ys) = 1"
    using Qn n by simp
  have "stddev ?ys = sqrt (sum_list (map (\<lambda>y. (y - mean ?ys)\<^sup>2) ?ys) / real (length ?ys))"
    by (rule stddev_def)
  also have "\<dots> = sqrt 1" by (simp only: fin)
  finally show ?thesis by simp
qed

lemma scale_value_nz: "s \<noteq> 0 \<Longrightarrow> scale_value m s = (\<lambda>v. (v - m) / s)"
  by (auto simp: scale_value_def)

lemma Area_transform:
  "map Area (transform table params)
     = map (scale_value (Area_mean params) (Area_stddev params)) (map Area table)"
  by (simp add: transform_def comp_def)

lemma Smoothness_transform:
  "map Smoothness (transform table params)
     = map (scale_value (Smoothness_mean params) (Smoothness_stddev params)) (map Smoothness table)"
  by (simp add: transform_def comp_def)

text \<open>
  C4, as the specification's scaler has it. The claim is that for every non-empty table
  \<open>fit\<close> then \<open>transform\<close> gives columns of mean 0 and standard deviation 1. A column
  with a single value has standard deviation 0; the scaler must not divide by it, and the
  scaled column is constant, with deviation 0 and not 1. (Under the other policy the
  specification allows, \<open>DegenerateColumnError\<close>, there is no scaled table at all.)
\<close>

theorem C4_counterexample:
  "flat_area_table \<noteq> []
   \<and> fit flat_area_table
       = Inr \<lparr>Area_mean = 5, Area_stddev = 0, Smoothness_mean = 2, Smoothness_stddev = 1\<rparr>
   \<and> scaled_cancer flat_area_table = Inr [mk_unscaled ''B'' 0 (- 1), mk_unscaled ''M'' 0 1]
   \<and> stddev (map Area [mk_unscaled ''B'' 0 (- 1), mk_unscaled ''M'' 0 1]) = 0"
  by (simp add: scaled_cancer_def fit_def transform_def scale_value_def stddev_def mean_def
        flat_area_table_def mk_unscaled_def)

text \<open>
  C4, amended. For every non-empty table whose \<open>Area\<close> and \<open>Smoothness\<close> columns have a
  non-zero standard deviation, \<open>fit\<close> then \<open>transform\<close> on that table replaces each value
  by \<open>(value - mean) / stddev\<close> of its column, and each scaled column has mean 0 and
  standard deviation 1.
\<close>

theorem C4_fit_transform_standardizes:
  assumes "table \<noteq> []"
    and "stddev (map Area table) \<noteq> 0" and "stddev (map Smoothness table) \<noteq> 0"
  shows "\<exists>params scaled.
           fit table = Inr params \<and> scaled_cancer table = Inr scaled
         \<and> scaled = transform table params
         \<and> map Area scaled
             = map (\<lambda>r. (Area r - mean (map Area table)) / stddev (map Area table)) table
         \<and> map Smoothness scaled
             = map (\<lambda>r. (Smoothness r - mean (map Smoothness table)) / stddev (map Smoothness table))
                 table
         \<and> mean (map Area scaled) = 0 \<and> stddev (map Area scaled) = 1
         \<and> mean (map Smoothness scaled) = 0 \<and> stddev (map Smoothness scaled) = 1"
proof -
  define params where "params = \<lparr>Area_mean = mean (map Area table),
                Area_stddev = stddev (map Area table),
                Smoothness_mean = mean (map Smoothness table),
                Smoothness_stddev = stddev (map Smoothness table)\<rparr>"
  define scaled where "scaled = transform table params"
  have f: "fit table = Inr params" using assms(1) by (simp add: fit_def params_def)
  have sc: "scaled_cancer table = Inr scaled"
    by (simp add: scaled_cancer_def f scaled_def)
  have a: "map Area scaled
      = map (\<lambda>v. (v - mean (map Area table)) / stddev (map Area table)) (map Area table)"
    unfolding scaled_def Area_transform
    by (simp add: params_def scale_value_nz [OF assms(2)])
  have s: "map Smoothness scaled
      = map (\<lambda>v. (v - mean (map Smoothness table)) / stddev (map Smoothness table))
          (map Smoothness table)"
    unfolding scaled_def Smoothness_transform
    by (simp add: params_def scale_value_nz [OF assms(3)])
  have ne: "map Area table \<noteq> []" "map Smoothness table \<noteq> []" using assms(1) by simp_all
  have ma: "mean (map Area scaled) = 0" unfolding a by (rule mean_standardized [OF ne(1)])
  have sa: "stddev (map Area scaled) = 1"
    unfolding a by (rule stddev_standardized [OF ne(1) assms(2)])
  have ms: "mean (map Smoothness scaled) = 0" unfolding s by (rule mean_standardized [OF ne(2)])
  have ss: "stddev (map Smoothness scaled) = 1"
    unfolding s by (rule stddev_standardized [OF ne(2) assms(3)])
  have a': "map Area scaled
             = map (\<lambda>r. (Area r - mean (map Area table)) / stddev (map Area table)) table"
    using a by (simp add: comp_def)
  have s': "map Smoothness scaled
             = map (\<lambda>r. (Smoothness r - mean (map Smoothness table)) / stddev (map Smoothness table))
                 table"
    using s by (simp add: comp_def)
  show ?thesis using f sc scaled_def a' s' ma sa ms ss by blast
qed

lemma varied_stddev:
  "stddev (map Area varied_table) = 1" "stddev (map Smoothness varied_table) = 1"
  by (simp_all add: stddev_def mean_def varied_table_def mk_unscaled_def)

text \<open>The theorem on a two-row table whose columns both have standard deviation 1.\<close>

theorem C4_fit_transform_standardizes_witness:
  "varied_table \<noteq> [] \<and> stddev (map Area varied_table) \<noteq> 0
   \<and> stddev (map Smoothness varied_table) \<noteq> 0
   \<and> (\<exists>params scaled. fit varied_table = Inr params \<and> scaled_cancer varied_table = Inr scaled
         \<and> mean (map Area scaled) = 0 \<and> stddev (map Area scaled) = 1
         \<and> mean (map Smoothness scaled) = 0 \<and> stddev (map Smoothness scaled) = 1)"
proof -
  have h1: "varied_table \<noteq> []" by (simp add: varied_table_def)
  have h2: "stddev (map Area varied_table) \<noteq> 0" by (simp add: varied_stddev)
  have h3: "stddev (map Smoothness varied_table) \<noteq> 0" by (simp add: varied_stddev)
  show ?thesis
    using h1 h2 h3 C4_fit_transform_standardizes [OF h1 h2 h3] by blast
qed

subsection \<open>Equal distances and equal counts\<close>

text \<open>
  What is assumed of the library sort and of the library vote leaves open which of
  several rows at the same distance is kept, and which of several labels with the same
  count is returned: two sorts that both return the rows in ascending order keep
  different rows of a tied pair, and two votes that both return a label of maximal
  count return different labels on a tied tally. The source itself fixes neither.
\<close>

lemma sort_values_last_first_ok: "sort_values_ok sort_values_last_first"
proof -
  have "sorted (map key (rev (sort_key (\<lambda>x. - key x) xs)))" for key :: "'a \<Rightarrow> real" and xs
  proof -
    have "sorted (map (\<lambda>x. - key x) (sort_key (\<lambda>x. - key x) xs))" by (rule sorted_sort_key)
    then show ?thesis by (simp add: sorted_wrt_map sorted_wrt_rev rev_map [symmetric])
  qed
  then show ?thesis by (simp add: sort_values_ok_def sort_values_last_first_def)
qed

lemma vote_scan_last_ok: "majority_vote_ok vote_scan_last"
  using vote_scan_ok unfolding majority_vote_ok_def vote_scan_last_def
  by (metis count_list_rev rev_is_Nil_conv set_rev)

lemma tied_rows_equidistant:
  "map (dist_from_new 0 3.5) tied_rows = [1, 1]"
  by (simp add: tied_rows_def mk_row_def dist_from_new_def)

lemma tie_selection_open:
  "map (\<lambda>n. ID (fst n)) (nearest (\<lambda>key xs. sort_key key xs) 1 (dist_from_new 0 3.5) tied_rows) = [1]
   \<and> map (\<lambda>n. ID (fst n)) (nearest sort_values_last_first 1 (dist_from_new 0 3.5) tied_rows) = [2]"
  by (simp add: nearest_def head_def with_dist_def sort_values_last_first_def tied_rows_def
        mk_row_def dist_from_new_def)

lemma vote_tie_open:
  "vote_scan [''Malignant'', ''Benign''] = ''Malignant''
   \<and> vote_scan_last [''Malignant'', ''Benign''] = ''Benign''"
  by (simp add: vote_scan_def vote_scan_last_def)

end
